theory Spec2Isabelle
  imports Main "HOL-Library.Multiset" "HOL-Library.Char_ord" "HOL-Library.List_Lexorder"
begin

section \<open>Strings\<close>

text \<open>
  A JavaScript string is modelled as a \<^typ>\<open>string\<close>, one \<^typ>\<open>char\<close> per code
  unit; the model therefore covers the strings whose code units are below 256.
  \<open>String.prototype.trim\<close> removes white space and line terminators from both ends;
  in that range these are TAB, LF, VT, FF, CR, SP and NBSP.
\<close>

definition is_ws :: "char \<Rightarrow> bool" where
  "is_ws c \<longleftrightarrow> c \<in> set [CHR 0x09, CHR 0x0A, CHR 0x0B, CHR 0x0C, CHR 0x0D, CHR 0x20, CHR 0xA0]"

definition trim :: "string \<Rightarrow> string" where
  "trim s = rev (dropWhile is_ws (rev (dropWhile is_ws s)))"

text \<open>
  \<open>String(v || "")\<close> for a value that is either \<open>undefined\<close> or a string: the
  empty string is falsy, so the result is the string itself, or \<open>""\<close> when absent.
\<close>

definition String_or_empty :: "string option \<Rightarrow> string" where
  "String_or_empty v = (case v of None \<Rightarrow> [] | Some s \<Rightarrow> (if s = [] then [] else s))"

text \<open>\<open>e.message || fallback\<close>.\<close>

definition or_else :: "string \<Rightarrow> string \<Rightarrow> string" where
  "or_else m fallback = (if m = [] then fallback else m)"

section \<open>The SQLite layer (db/index.js)\<close>

text \<open>
  A row of the table \<open>tasks\<close>:
  \<open>id INTEGER PRIMARY KEY AUTOINCREMENT, title TEXT NOT NULL,
  completed INTEGER NOT NULL DEFAULT 0, created_at DATETIME NOT NULL, updated_at DATETIME\<close>.
  Timestamps are the strings the code writes, each the \<open>new Date().toISOString()\<close>
  of its moment, which the operations below take as their argument \<open>now\<close>; SQLite
  keeps such a value as text. A NULL \<open>updated_at\<close> is \<open>None\<close>.
\<close>

record row =
  row_id :: int
  row_title :: string
  row_completed :: int
  created_at :: string
  updated_at :: "string option"

text \<open>The API object built by \<open>mapRow\<close>.\<close>

record task =
  task_id :: int
  title :: string
  completed :: bool
  createdAt :: string
  updatedAt :: "string option"

text \<open>
  The loosely shaped objects \<open>{title?, completed?}\<close>: the argument of \<open>createTask\<close>,
  the \<open>updates\<close> of \<open>updateTask\<close> and \<open>updateTodo\<close>, and the JSON bodies of POST and PUT.
  \<open>None\<close> is an absent property.
\<close>

record partial =
  p_title :: "string option"
  p_completed :: "bool option"

text \<open>
  The database: the rows of \<open>tasks\<close> in rowid order of insertion, and the value
  kept in \<open>sqlite_sequence\<close> for the AUTOINCREMENT key (the largest rowid ever
  issued). The engine's calls are taken to succeed: the \<open>err\<close> branches of the
  callbacks (I/O failures) have no counterpart here.
\<close>

record db =
  rows :: "row list"
  seq :: int

definition init_db :: db where
  "init_db = \<lparr>rows = [], seq = 0\<rparr>"

text \<open>\<open>SELECT ... FROM tasks WHERE id = ?\<close> with \<open>db.get\<close>: the first matching row.\<close>

definition select_by_id :: "int \<Rightarrow> db \<Rightarrow> row option" where
  "select_by_id i d = find (\<lambda>r. row_id r = i) (rows d)"

text \<open>
  The rowid an \<open>INSERT\<close> receives under AUTOINCREMENT: one more than the largest
  rowid that ever existed (the maximum of \<open>sqlite_sequence\<close> and the rowids present).
\<close>

definition next_rowid :: "db \<Rightarrow> int" where
  "next_rowid d = fold max (map row_id (rows d)) (seq d) + 1"

definition row_object :: "row \<Rightarrow> task" where
  "row_object r =
     \<lparr>task_id = row_id r,
      title = row_title r,
      completed = (row_completed r \<noteq> 0),
      createdAt = created_at r,
      updatedAt = (case updated_at r of None \<Rightarrow> None
                   | Some u \<Rightarrow> (if u = [] then None else Some u))\<rparr>"

definition mapRow :: "row option \<Rightarrow> task option" where
  "mapRow r = (case r of None \<Rightarrow> None | Some x \<Rightarrow> Some (row_object x))"

text \<open>
  \<open>ORDER BY created_at DESC, id DESC\<close>: \<open>precedes a b\<close> says that \<open>a\<close> may stand
  before \<open>b\<close> in the result; the rows are put in that order by insertion.
  Text values compare code unit by code unit.
\<close>

definition precedes :: "row \<Rightarrow> row \<Rightarrow> bool" where
  "precedes a b \<longleftrightarrow>
     created_at b < created_at a \<or> (created_at a = created_at b \<and> row_id b \<le> row_id a)"

fun insert_row :: "row \<Rightarrow> row list \<Rightarrow> row list" where
  "insert_row r [] = [r]"
| "insert_row r (x # xs) = (if precedes r x then r # x # xs else x # insert_row r xs)"

definition order_by_created_desc_id_desc :: "row list \<Rightarrow> row list" where
  "order_by_created_desc_id_desc rs = foldr insert_row rs []"

definition getAllTasks :: "db \<Rightarrow> task list" where
  "getAllTasks d = map row_object (order_by_created_desc_id_desc (rows d))"

definition createTask :: "partial \<Rightarrow> string \<Rightarrow> db \<Rightarrow> task option \<times> db" where
  "createTask args now d =
     (let comp = (if p_completed args = Some True then 1 else 0);
          lastID = next_rowid d;
          d' = d\<lparr>rows := rows d @
                  [\<lparr>row_id = lastID,
                    row_title = trim (String_or_empty (p_title args)),
                    row_completed = comp,
                    created_at = now,
                    updated_at = None\<rparr>],
                seq := lastID\<rparr>
      in (mapRow (select_by_id lastID d'), d'))"

definition getTaskById :: "int \<Rightarrow> db \<Rightarrow> task option" where
  "getTaskById i d = mapRow (select_by_id i d)"

text \<open>
  \<open>updateTask\<close> collects the \<open>SET\<close> clauses with their parameters in \<open>fields\<close> and
  \<open>params\<close>; here one list of assignments, \<open>fs\<close>, stands for both.
\<close>

datatype assignment = SetTitle string | SetCompleted int | SetUpdatedAt string

fun assign :: "assignment \<Rightarrow> row \<Rightarrow> row" where
  "assign (SetTitle t) r = r\<lparr>row_title := t\<rparr>"
| "assign (SetCompleted c) r = r\<lparr>row_completed := c\<rparr>"
| "assign (SetUpdatedAt u) r = r\<lparr>updated_at := Some u\<rparr>"

definition update_fields :: "partial \<Rightarrow> string \<Rightarrow> assignment list" where
  "update_fields updates now =
     (case p_title updates of None \<Rightarrow> []
      | Some t \<Rightarrow> [SetTitle (trim (String_or_empty (Some t)))]) @
     (case p_completed updates of None \<Rightarrow> []
      | Some c \<Rightarrow> [SetCompleted (if c then 1 else 0)]) @
     [SetUpdatedAt now]"

text \<open>\<open>UPDATE tasks SET ... WHERE id = ?\<close>: the new table and \<open>this.changes\<close>.\<close>

definition sql_update :: "assignment list \<Rightarrow> int \<Rightarrow> db \<Rightarrow> nat \<times> db" where
  "sql_update fs i d =
     (length (filter (\<lambda>r. row_id r = i) (rows d)),
      d\<lparr>rows := map (\<lambda>r. if row_id r = i then fold assign fs r else r) (rows d)\<rparr>)"

definition updateTask :: "int \<Rightarrow> partial \<Rightarrow> string \<Rightarrow> db \<Rightarrow> task option \<times> db" where
  "updateTask i updates now d =
     (let fs = update_fields updates now in
      if length fs = 1 then (getTaskById i d, d)
      else (case sql_update fs i d of
              (changes, d') \<Rightarrow>
                if changes = 0 then (None, d') else (mapRow (select_by_id i d'), d')))"

text \<open>\<open>DELETE FROM tasks WHERE id = ?\<close>, resolving \<open>this.changes > 0\<close>.\<close>

definition deleteTask :: "int \<Rightarrow> db \<Rightarrow> bool \<times> db" where
  "deleteTask i d =
     (0 < length (filter (\<lambda>r. row_id r = i) (rows d)),
      d\<lparr>rows := filter (\<lambda>r. row_id r \<noteq> i) (rows d)\<rparr>)"

text \<open>
  Sequences of store operations, for statements about every state the store can reach
  from the empty table. The timestamp each operation reads from the clock is part of
  the operation.
\<close>

datatype store_op =
  Create partial string
| Update int partial string
| Delete int
| ListAll

fun apply_op :: "store_op \<Rightarrow> db \<Rightarrow> db" where
  "apply_op (Create args now) d = snd (createTask args now d)"
| "apply_op (Update i updates now) d = snd (updateTask i updates now d)"
| "apply_op (Delete i) d = snd (deleteTask i d)"
| "apply_op ListAll d = d"

definition run :: "store_op list \<Rightarrow> db \<Rightarrow> db" where
  "run ops d = fold apply_op ops d"

section \<open>The REST handlers (server.js)\<close>

text \<open>
  What a handler sends: \<open>res.status(n).json(v)\<close> or \<open>res.status(204).send()\<close>.
  \<open>Object None\<close> is the JSON \<open>null\<close>.
\<close>

datatype payload = Message string | Object "task option" | Array "task list" | Empty

record response =
  status :: nat
  payload :: payload

text \<open>
  The request bodies are \<^typ>\<open>partial\<close> objects whose \<open>title\<close>, when present, is a
  string and whose \<open>completed\<close>, when present, is a boolean, as the API contract has
  them. The \<open>:id\<close> parameter is given as \<open>Number(req.params.id)\<close> already taken:
  \<open>None\<close> when it is not finite, else its value (a finite value that is not an
  integer matches no row, as an integer that is absent does).
\<close>

definition post_todos :: "partial \<Rightarrow> string \<Rightarrow> db \<Rightarrow> response \<times> db" where
  "post_todos body now d =
     (let comp = (case p_completed body of None \<Rightarrow> False | Some c \<Rightarrow> c);
          trimmed = trim (String_or_empty (p_title body))
      in if trimmed = [] then (\<lparr>status = 400, payload = Message ''Title is required''\<rparr>, d)
         else (case createTask \<lparr>p_title = Some trimmed, p_completed = Some comp\<rparr> now d of
                 (created, d') \<Rightarrow> (\<lparr>status = 201, payload = Object created\<rparr>, d')))"

definition put_todos :: "int option \<Rightarrow> partial \<Rightarrow> string \<Rightarrow> db \<Rightarrow> response \<times> db" where
  "put_todos idn body now d =
     (case idn of
        None \<Rightarrow> (\<lparr>status = 400, payload = Message ''Invalid id''\<rparr>, d)
      | Some i \<Rightarrow>
          if i \<le> 0 then (\<lparr>status = 400, payload = Message ''Invalid id''\<rparr>, d)
          else
            (let updates = \<lparr>p_title = p_title body, p_completed = p_completed body\<rparr> in
             case updateTask i updates now d of
               (None, d') \<Rightarrow> (\<lparr>status = 404, payload = Message ''Todo not found''\<rparr>, d')
             | (Some updated, d') \<Rightarrow> (\<lparr>status = 200, payload = Object (Some updated)\<rparr>, d')))"

definition delete_todos :: "int option \<Rightarrow> db \<Rightarrow> response \<times> db" where
  "delete_todos idn d =
     (case idn of
        None \<Rightarrow> (\<lparr>status = 400, payload = Message ''Invalid id''\<rparr>, d)
      | Some i \<Rightarrow>
          if i \<le> 0 then (\<lparr>status = 400, payload = Message ''Invalid id''\<rparr>, d)
          else
            (case deleteTask i d of
               (removed, d') \<Rightarrow>
                 if \<not> removed then (\<lparr>status = 404, payload = Message ''Todo not found''\<rparr>, d')
                 else (\<lparr>status = 204, payload = Empty\<rparr>, d')))"

definition get_todos :: "db \<Rightarrow> response \<times> db" where
  "get_todos d = (\<lparr>status = 200, payload = Array (getAllTasks d)\<rparr>, d)"

section \<open>The client hook (hooks/useTodos.js)\<close>

text \<open>
  The state of \<open>useTodos\<close>. Each operation is an async function with one \<open>await\<close>:
  its part before the \<open>await\<close> (\<open>_begin\<close>) gives the state it leaves and the request
  it issues, \<open>None\<close> when it returns before issuing one; its part after the \<open>await\<close>
  (\<open>_resume\<close>) takes what \<open>apiRequest\<close> did: \<open>Inr\<close> the data it returned, \<open>Inl\<close>
  the \<open>message\<close> of the error it threw. The operation itself is the two run in
  a row with nothing in between, so the \<open>todos\<close> its closure captured are those of
  the state it starts in.
\<close>

record hook =
  todos :: "task list"
  loading :: bool
  error :: string

datatype request =
  GET_todos
| POST_todos partial
| PUT_todos int "task option"
| DELETE_todos int

definition await :: "hook \<times> request option \<Rightarrow> (hook \<Rightarrow> hook) \<Rightarrow> hook \<times> request option" where
  "await b k = (case b of (s, None) \<Rightarrow> (s, None) | (s, Some rq) \<Rightarrow> (k s, Some rq))"

definition fetchTodos_begin :: "hook \<Rightarrow> hook \<times> request option" where
  "fetchTodos_begin s = (s\<lparr>loading := True, error := []\<rparr>, Some GET_todos)"

text \<open>The reply of GET carries \<open>Some ts\<close> when the data is an array, else \<open>None\<close>.\<close>

definition fetchTodos_resume :: "string + task list option \<Rightarrow> hook \<Rightarrow> hook" where
  "fetchTodos_resume reply s =
     (case reply of
        Inr data \<Rightarrow> s\<lparr>todos := (case data of Some ts \<Rightarrow> ts | None \<Rightarrow> [])\<rparr>
      | Inl m \<Rightarrow> s\<lparr>error := or_else m ''Failed to load todos''\<rparr>)\<lparr>loading := False\<rparr>"

definition fetchTodos :: "string + task list option \<Rightarrow> hook \<Rightarrow> hook \<times> request option" where
  "fetchTodos reply s = await (fetchTodos_begin s) (fetchTodos_resume reply)"

definition addTodo_begin :: "string \<Rightarrow> hook \<Rightarrow> hook \<times> request option" where
  "addTodo_begin ttl s =
     (let newTodo = \<lparr>p_title = Some (trim ttl), p_completed = Some False\<rparr> in
      if trim ttl = [] then (s, None) else (s, Some (POST_todos newTodo)))"

definition addTodo_resume :: "string + task \<Rightarrow> hook \<Rightarrow> hook" where
  "addTodo_resume reply s =
     (case reply of
        Inr created \<Rightarrow> s\<lparr>todos := created # todos s\<rparr>
      | Inl m \<Rightarrow> s\<lparr>error := or_else m ''Failed to add todo''\<rparr>)"

definition addTodo :: "string \<Rightarrow> string + task \<Rightarrow> hook \<Rightarrow> hook \<times> request option" where
  "addTodo ttl reply s = await (addTodo_begin ttl s) (addTodo_resume reply)"

text \<open>\<open>{ ...t, ...updates }\<close>.\<close>

definition spread :: "task \<Rightarrow> partial \<Rightarrow> task" where
  "spread t updates =
     t\<lparr>title := (case p_title updates of None \<Rightarrow> title t | Some x \<Rightarrow> x),
       completed := (case p_completed updates of None \<Rightarrow> completed t | Some c \<Rightarrow> c)\<rparr>"

definition updateTodo_begin :: "int \<Rightarrow> partial \<Rightarrow> hook \<Rightarrow> hook \<times> request option" where
  "updateTodo_begin i updates s =
     (let prev = todos s;
          next = map (\<lambda>t. if task_id t = i then spread t updates else t) prev
      in (s\<lparr>error := [], todos := next\<rparr>,
          Some (PUT_todos i (find (\<lambda>t. task_id t = i) next))))"

definition updateTodo_resume :: "int \<Rightarrow> task list \<Rightarrow> string + task \<Rightarrow> hook \<Rightarrow> hook" where
  "updateTodo_resume i prev reply s =
     (case reply of
        Inr updated \<Rightarrow> s\<lparr>todos := map (\<lambda>t. if task_id t = i then updated else t) (todos s)\<rparr>
      | Inl m \<Rightarrow> s\<lparr>todos := prev, error := or_else m ''Failed to update todo''\<rparr>)"

definition updateTodo :: "int \<Rightarrow> partial \<Rightarrow> string + task \<Rightarrow> hook \<Rightarrow> hook \<times> request option" where
  "updateTodo i updates reply s =
     await (updateTodo_begin i updates s) (updateTodo_resume i (todos s) reply)"

definition toggleComplete_begin :: "int \<Rightarrow> hook \<Rightarrow> hook \<times> request option" where
  "toggleComplete_begin i s =
     (case find (\<lambda>t. task_id t = i) (todos s) of
        None \<Rightarrow> (s, None)
      | Some target \<Rightarrow>
          updateTodo_begin i \<lparr>p_title = None, p_completed = Some (\<not> completed target)\<rparr> s)"

definition toggleComplete :: "int \<Rightarrow> string + task \<Rightarrow> hook \<Rightarrow> hook \<times> request option" where
  "toggleComplete i reply s =
     (case find (\<lambda>t. task_id t = i) (todos s) of
        None \<Rightarrow> (s, None)
      | Some target \<Rightarrow>
          updateTodo i \<lparr>p_title = None, p_completed = Some (\<not> completed target)\<rparr> reply s)"

definition deleteTodo_begin :: "int \<Rightarrow> hook \<Rightarrow> hook \<times> request option" where
  "deleteTodo_begin i s =
     (s\<lparr>error := [], todos := filter (\<lambda>t. task_id t \<noteq> i) (todos s)\<rparr>,
      Some (DELETE_todos i))"

definition deleteTodo_resume :: "task list \<Rightarrow> string + unit \<Rightarrow> hook \<Rightarrow> hook" where
  "deleteTodo_resume prev reply s =
     (case reply of
        Inr _ \<Rightarrow> s
      | Inl m \<Rightarrow> s\<lparr>todos := prev, error := or_else m ''Failed to delete todo''\<rparr>)"

definition deleteTodo :: "int \<Rightarrow> string + unit \<Rightarrow> hook \<Rightarrow> hook \<times> request option" where
  "deleteTodo i reply s = await (deleteTodo_begin i s) (deleteTodo_resume (todos s) reply)"

text \<open>
  The derived \<open>stats\<close>, with the fields \<open>total\<close>, \<open>completed\<close> and \<open>active\<close>; array
  lengths are natural numbers.
\<close>

record stats_object =
  total_count :: nat
  completed_count :: nat
  active_count :: nat

definition stats :: "hook \<Rightarrow> stats_object" where
  "stats s =
     (let n_total = length (todos s);
          n_completed = length (filter completed (todos s));
          n_active = n_total - n_completed
      in \<lparr>total_count = n_total, completed_count = n_completed, active_count = n_active\<rparr>)"

section \<open>Predicates of the statements\<close>

text \<open>Most recent first, on the objects the API returns.\<close>

definition most_recent_first :: "task \<Rightarrow> task \<Rightarrow> bool" where
  "most_recent_first a b \<longleftrightarrow>
     createdAt b < createdAt a \<or> (createdAt a = createdAt b \<and> task_id b \<le> task_id a)"

text \<open>Every id in the table has been issued: it is at most \<open>sqlite_sequence\<close>.\<close>

definition ids_issued :: "db \<Rightarrow> bool" where
  "ids_issued d \<longleftrightarrow> (\<forall>r \<in> set (rows d). row_id r \<le> seq d)"

text \<open>A retired id: issued at some time, and no longer in the table.\<close>

definition retired :: "int \<Rightarrow> db \<Rightarrow> bool" where
  "retired i d \<longleftrightarrow> i \<le> seq d \<and> i \<notin> row_id ` set (rows d)"

section \<open>Sample data\<close>

definition milk_row :: row where
  "milk_row = \<lparr>row_id = 1, row_title = ''Buy milk'', row_completed = 0,
      created_at = ''2024-01-01T00:00:00.000Z'', updated_at = None\<rparr>"

definition milk_db :: db where
  "milk_db = \<lparr>rows = [milk_row], seq = 1\<rparr>"

definition milk_task :: task where
  "milk_task = \<lparr>task_id = 1, title = ''Buy milk'', completed = False,
      createdAt = ''2024-01-01T00:00:00.000Z'', updatedAt = None\<rparr>"

definition report_task :: task where
  "report_task = \<lparr>task_id = 2, title = ''Write report'', completed = True,
      createdAt = ''2024-01-03T00:00:00.000Z'', updatedAt = Some ''2024-01-04T00:00:00.000Z''\<rparr>"

definition stale_hook :: hook where
  "stale_hook = \<lparr>todos = [report_task, milk_task], loading = False, error = ''Todo not found''\<rparr>"

definition report_row :: row where
  "report_row = \<lparr>row_id = 2, row_title = ''Write report'', row_completed = 1,
      created_at = ''2024-01-03T00:00:00.000Z'', updated_at = Some ''2024-01-04T00:00:00.000Z''\<rparr>"

definition tie_row :: row where
  "tie_row = \<lparr>row_id = 3, row_title = ''Call home'', row_completed = 0,
      created_at = ''2024-01-03T00:00:00.000Z'', updated_at = None\<rparr>"

definition three_db :: db where
  "three_db = \<lparr>rows = [milk_row, report_row, tie_row], seq = 3\<rparr>"

definition two_creates :: "store_op list" where
  "two_creates =
     [Create \<lparr>p_title = Some ''Buy milk'', p_completed = None\<rparr> ''2024-01-01T00:00:00.000Z'',
      Create \<lparr>p_title = Some ''Write report'', p_completed = Some True\<rparr> ''2024-01-03T00:00:00.000Z'']"

definition later_ops :: "store_op list" where
  "later_ops =
     [Create \<lparr>p_title = Some ''Call home'', p_completed = None\<rparr> ''2024-01-05T00:00:00.000Z'',
      Update 1 \<lparr>p_title = Some ''Buy oat milk'', p_completed = None\<rparr> ''2024-01-06T00:00:00.000Z'',
      Delete 2,
      ListAll]"

section \<open>Strings: facts\<close>

lemma String_or_empty_Some [simp]: "String_or_empty (Some s) = s"
  by (simp add: String_or_empty_def)

lemma or_else_nonempty: "fallback \<noteq> [] \<Longrightarrow> or_else m fallback \<noteq> []"
  by (simp add: or_else_def)

lemma last_dropWhile_nonempty: "dropWhile P xs \<noteq> [] \<Longrightarrow> last (dropWhile P xs) = last xs"
  by (induction xs) (auto split: if_splits)

lemma dropWhile_rev_self: "xs = [] \<or> \<not> P (last xs) \<Longrightarrow> dropWhile P (rev xs) = rev xs"
  by (cases xs rule: rev_cases) auto

text \<open>Trimming a trimmed string changes nothing.\<close>

lemma trim_trim: "trim (trim s) = trim s"
proof -
  let ?a = "dropWhile is_ws s"
  let ?b = "dropWhile is_ws (rev ?a)"
  have "?b = [] \<or> \<not> is_ws (last ?b)"
  proof (cases "?b = []")
    case True
    then show ?thesis by (rule disjI1)
  next
    case False
    have a: "?a \<noteq> []"
    proof
      assume e: "?a = []"
      have "?b = []" unfolding e by simp
      with False show False by contradiction
    qed
    have "last ?b = last (rev ?a)" using False by (rule last_dropWhile_nonempty)
    also have "\<dots> = hd ?a" using a by (simp add: last_rev)
    finally show ?thesis using hd_dropWhile [OF a] by simp
  qed
  then have "dropWhile is_ws (rev ?b) = rev ?b" by (rule dropWhile_rev_self)
  then show ?thesis by (simp add: trim_def)
qed

lemma trim_blank: "trim [] = [] \<and> trim ''   '' = []"
  by (simp add: trim_def is_ws_def)

lemma trim_samples:
  "trim ''Buy milk'' = ''Buy milk''" "trim ''  Buy milk '' = ''Buy milk''"
  "trim ''Write report'' = ''Write report''" "trim ''Call home'' = ''Call home''"
  "trim ''Buy oat milk'' = ''Buy oat milk''"
  by (simp_all add: trim_def is_ws_def)

section \<open>The SQLite layer: facts\<close>

lemma select_by_id_None_iff: "select_by_id i d = None \<longleftrightarrow> i \<notin> row_id ` set (rows d)"
  by (auto simp: select_by_id_def find_None_iff)

lemma select_by_id_Some: "select_by_id i d = Some r \<Longrightarrow> r \<in> set (rows d) \<and> row_id r = i"
  by (auto simp: select_by_id_def find_Some_iff)

lemma select_by_id_map:
  assumes "\<And>r. row_id (f r) = row_id r"
  shows "select_by_id i (d\<lparr>rows := map f (rows d)\<rparr>) = map_option f (select_by_id i d)"
proof -
  have "find (\<lambda>r. row_id r = i) (map f xs) = map_option f (find (\<lambda>r. row_id r = i) xs)" for xs
    by (induction xs) (simp_all add: assms)
  then show ?thesis by (simp add: select_by_id_def)
qed

lemma row_id_assign [simp]: "row_id (assign a r) = row_id r"
  by (cases a) simp_all

lemma row_id_fold_assign [simp]: "row_id (fold assign fs r) = row_id r"
  by (induction fs arbitrary: r) simp_all

lemma task_id_row_object [simp]: "task_id (row_object r) = row_id r"
  by (simp add: row_object_def)

lemma length_update_fields:
  "length (update_fields u now) = Suc 0 \<longleftrightarrow> p_title u = None \<and> p_completed u = None"
  by (simp add: update_fields_def split: option.splits)

lemma update_fields_completed:
  "update_fields \<lparr>p_title = None, p_completed = Some True\<rparr> now = [SetCompleted 1, SetUpdatedAt now]"
  by (simp add: update_fields_def)

lemma no_changes_iff: "length (filter (\<lambda>r. row_id r = i) xs) = 0 \<longleftrightarrow> i \<notin> row_id ` set xs"
  by (auto simp: filter_empty_conv)

lemma sql_update_absent:
  assumes "select_by_id i d = None"
  shows "sql_update fs i d = (0, d)"
proof -
  have none: "\<forall>r \<in> set (rows d). row_id r \<noteq> i"
    using assms by (auto simp: select_by_id_def find_None_iff)
  then have "filter (\<lambda>r. row_id r = i) (rows d) = []"
    by (simp add: filter_empty_conv)
  moreover have "map (\<lambda>r. if row_id r = i then fold assign fs r else r) (rows d) = rows d"
    using none by (simp add: map_idI)
  ultimately show ?thesis by (simp add: sql_update_def)
qed

subsection \<open>Row ids\<close>

lemma fold_max_ge_init: "(a::int) \<le> fold max xs a"
proof (induction xs arbitrary: a)
  case Nil
  show ?case by simp
next
  case (Cons x xs)
  have "a \<le> max x a" by simp
  also have "\<dots> \<le> fold max xs (max x a)" by (rule Cons.IH)
  finally show ?case by simp
qed

lemma fold_max_ge_elem: "x \<in> set xs \<Longrightarrow> (x::int) \<le> fold max xs a"
proof (induction xs arbitrary: a)
  case Nil
  then show ?case by simp
next
  case (Cons y ys)
  show ?case
  proof (cases "x = y")
    case True
    have "x \<le> max y a" using True by simp
    also have "\<dots> \<le> fold max ys (max y a)" by (rule fold_max_ge_init)
    finally show ?thesis by simp
  next
    case False
    with Cons.prems have "x \<in> set ys" by simp
    then show ?thesis using Cons.IH by simp
  qed
qed

lemma next_rowid_gt_seq: "seq d < next_rowid d"
  using fold_max_ge_init [of "seq d" "map row_id (rows d)"] by (simp add: next_rowid_def)

lemma next_rowid_gt_ids: "r \<in> set (rows d) \<Longrightarrow> row_id r < next_rowid d"
  using fold_max_ge_elem [of "row_id r" "map row_id (rows d)" "seq d"]
  by (simp add: next_rowid_def)

lemma find_fresh_append:
  "\<forall>x \<in> set xs. \<not> P x \<Longrightarrow> P y \<Longrightarrow> find P (xs @ [y]) = Some y"
  by (induction xs) simp_all

text \<open>
  What \<open>createTask\<close> resolves to and the table it leaves: the \<open>SELECT\<close> after the
  \<open>INSERT\<close> finds the new row, whose id no older row has.
\<close>

lemma createTask_result:
  "createTask args now d =
    (Some \<lparr>task_id = next_rowid d, title = trim (String_or_empty (p_title args)),
          completed = (p_completed args = Some True), createdAt = now, updatedAt = None\<rparr>,
     \<lparr>rows = rows d @
        [\<lparr>row_id = next_rowid d, row_title = trim (String_or_empty (p_title args)),
          row_completed = (if p_completed args = Some True then 1 else 0),
          created_at = now, updated_at = None\<rparr>],
      seq = next_rowid d\<rparr>)"
proof -
  let ?r = "\<lparr>row_id = next_rowid d, row_title = trim (String_or_empty (p_title args)),
          row_completed = (if p_completed args = Some True then 1 else 0),
          created_at = now, updated_at = None\<rparr>"
  have "\<forall>x \<in> set (rows d). \<not> row_id x = next_rowid d"
    using next_rowid_gt_ids [of _ d] by fastforce
  then have "find (\<lambda>x. row_id x = next_rowid d) (rows d @ [?r]) = Some ?r"
    by (rule find_fresh_append) simp
  then show ?thesis
    by (simp add: createTask_def Let_def select_by_id_def mapRow_def row_object_def)
qed

text \<open>
  \<open>createTask\<close> itself checks nothing: called with a blank title it inserts a row
  whose title is empty. The POST handler is what keeps such a call from happening.
\<close>

lemma createTask_blank_title:
  "createTask \<lparr>p_title = Some ''   '', p_completed = None\<rparr> ''2024-01-01T00:00:00.000Z'' init_db =
     (Some \<lparr>task_id = 1, title = [], completed = False,
        createdAt = ''2024-01-01T00:00:00.000Z'', updatedAt = None\<rparr>,
      \<lparr>rows = [\<lparr>row_id = 1, row_title = [], row_completed = 0,
          created_at = ''2024-01-01T00:00:00.000Z'', updated_at = None\<rparr>], seq = 1\<rparr>)"
  by (simp add: createTask_result next_rowid_def init_db_def trim_blank)

lemma rows_createTask:
  "rows (snd (createTask args now d)) = rows d @
     [\<lparr>row_id = next_rowid d, row_title = trim (String_or_empty (p_title args)),
       row_completed = (if p_completed args = Some True then 1 else 0),
       created_at = now, updated_at = None\<rparr>]"
  by (simp add: createTask_result)

lemma seq_createTask: "seq (snd (createTask args now d)) = next_rowid d"
  by (simp add: createTask_result)

lemma ids_updateTask: "map row_id (rows (snd (updateTask i u now d))) = map row_id (rows d)"
  by (simp add: updateTask_def Let_def sql_update_def o_def split: prod.splits)

lemma idset_updateTask:
  "row_id ` set (rows (snd (updateTask i u now d))) = row_id ` set (rows d)"
  using ids_updateTask [of i u now d] by (metis set_map)

lemma seq_updateTask: "seq (snd (updateTask i u now d)) = seq d"
  by (auto simp add: updateTask_def Let_def sql_update_def split: prod.splits)

lemma rows_deleteTask: "rows (snd (deleteTask i d)) = filter (\<lambda>r. row_id r \<noteq> i) (rows d)"
  by (simp add: deleteTask_def)

lemma seq_deleteTask: "seq (snd (deleteTask i d)) = seq d"
  by (simp add: deleteTask_def)

lemma fst_deleteTask: "fst (deleteTask i d) \<longleftrightarrow> i \<in> row_id ` set (rows d)"
  by (auto simp add: deleteTask_def filter_empty_conv)

section \<open>The store: claims\<close>

text \<open>
  C1, as the code has it. When \<open>updates\<close> supplies neither \<open>title\<close> nor
  \<open>completed\<close>, \<open>fields\<close> holds the \<open>updated_at\<close> clause alone and \<open>updateTask\<close>
  returns \<open>getTaskById(id)\<close> without running any \<open>UPDATE\<close>: the table is left as it
  was, \<open>updated_at\<close> included, and the result is the task as stored (\<open>null\<close> when
  there is none). For an id with no task, whatever \<open>updates\<close> holds, the result is
  \<open>null\<close> and the table is unchanged, so no row is created.
\<close>

theorem C1_updateTask_without_fields:
  "(p_title u = None \<and> p_completed u = None \<longrightarrow>
      updateTask i u now d = (mapRow (select_by_id i d), d)) \<and>
   (select_by_id i d = None \<longrightarrow> updateTask i u now d = (None, d))"
  by (simp add: updateTask_def Let_def length_update_fields getTaskById_def
      sql_update_absent mapRow_def)

text \<open>
  C1 as the claim words it fails: task 1 exists, the update supplies no field, and
  afterwards its \<open>updated_at\<close> is still NULL, not the current timestamp.
\<close>

theorem C1_updatedAt_not_refreshed:
  "select_by_id 1 milk_db = Some milk_row \<and>
   updateTask 1 \<lparr>p_title = None, p_completed = None\<rparr> ''2024-01-02T00:00:00.000Z'' milk_db
     = (Some \<lparr>task_id = 1, title = ''Buy milk'', completed = False,
              createdAt = ''2024-01-01T00:00:00.000Z'', updatedAt = None\<rparr>, milk_db) \<and>
   map updated_at (rows milk_db) = [None] \<and>
   map updated_at (rows milk_db) \<noteq> [Some ''2024-01-02T00:00:00.000Z'']"
  by (simp add: updateTask_def update_fields_def getTaskById_def select_by_id_def mapRow_def
      row_object_def milk_db_def milk_row_def)

theorem C1_updateTask_without_fields_witness:
  "updateTask 1 \<lparr>p_title = None, p_completed = None\<rparr> ''2024-01-02T00:00:00.000Z'' milk_db
     = (Some (row_object milk_row), milk_db) \<and>
   updateTask 2 \<lparr>p_title = Some ''Buy oat milk'', p_completed = Some True\<rparr>
      ''2024-01-02T00:00:00.000Z'' milk_db = (None, milk_db)"
  using C1_updateTask_without_fields [of "\<lparr>p_title = None, p_completed = None\<rparr>" 1
      "''2024-01-02T00:00:00.000Z''" milk_db]
    C1_updateTask_without_fields [of "\<lparr>p_title = Some ''Buy oat milk'', p_completed = Some True\<rparr>" 2
      "''2024-01-02T00:00:00.000Z''" milk_db]
  by (simp add: select_by_id_def mapRow_def milk_db_def milk_row_def)

text \<open>
  C5. \<open>updateTask(id, {completed: true})\<close> on an existing task resolves to the stored
  task with \<open>completed\<close> set and \<open>updatedAt\<close> the current timestamp. In the table
  every row keeps its place, its id, its title and its \<open>created_at\<close>; a row with
  another id is unchanged, a row with this id differs in \<open>completed\<close> and
  \<open>updated_at\<close> only; \<open>sqlite_sequence\<close> is unchanged.
\<close>

theorem C5_updateTask_completed_frame:
  assumes "select_by_id i d = Some r"
    and "updateTask i \<lparr>p_title = None, p_completed = Some True\<rparr> now d = (res, d')"
  shows "res = Some (row_object (r\<lparr>row_completed := 1, updated_at := Some now\<rparr>)) \<and>
    seq d' = seq d \<and>
    length (rows d') = length (rows d) \<and>
    (\<forall>k < length (rows d).
       row_id (rows d' ! k) = row_id (rows d ! k) \<and>
       row_title (rows d' ! k) = row_title (rows d ! k) \<and>
       created_at (rows d' ! k) = created_at (rows d ! k) \<and>
       (row_id (rows d ! k) \<noteq> i \<longrightarrow> rows d' ! k = rows d ! k) \<and>
       (row_id (rows d ! k) = i \<longrightarrow>
          rows d' ! k = (rows d ! k)\<lparr>row_completed := 1, updated_at := Some now\<rparr>))"
proof -
  let ?f = "\<lambda>x::row. if row_id x = i then x\<lparr>row_completed := 1, updated_at := Some now\<rparr> else x"
  have idf: "row_id (?f x) = row_id x" for x by simp
  have present: "i \<in> row_id ` set (rows d)"
    using assms(1) select_by_id_None_iff [of i d] by simp
  have upd: "sql_update [SetCompleted 1, SetUpdatedAt now] i d =
      (length (filter (\<lambda>x. row_id x = i) (rows d)), d\<lparr>rows := map ?f (rows d)\<rparr>)"
    by (simp add: sql_update_def)
  have changes: "length (filter (\<lambda>x. row_id x = i) (rows d)) \<noteq> 0"
    using present no_changes_iff [of i "rows d"] by simp
  have sel: "select_by_id i (d\<lparr>rows := map ?f (rows d)\<rparr>) = Some (?f r)"
    using select_by_id_map [of ?f i d, OF idf] assms(1) by simp
  have r: "row_id r = i" using select_by_id_Some [OF assms(1)] by simp
  have "updateTask i \<lparr>p_title = None, p_completed = Some True\<rparr> now d =
      (Some (row_object (?f r)), d\<lparr>rows := map ?f (rows d)\<rparr>)"
    using changes sel by (simp add: updateTask_def update_fields_completed upd mapRow_def)
  with assms(2) r have res: "res = Some (row_object (r\<lparr>row_completed := 1, updated_at := Some now\<rparr>))"
    and d': "d' = d\<lparr>rows := map ?f (rows d)\<rparr>" by simp_all
  show ?thesis using res by (simp add: d')
qed

theorem C5_updateTask_completed_frame_witness:
  "select_by_id 1 three_db = Some milk_row \<and>
   fst (updateTask 1 \<lparr>p_title = None, p_completed = Some True\<rparr> ''2024-01-06T00:00:00.000Z'' three_db)
     = Some \<lparr>task_id = 1, title = ''Buy milk'', completed = True,
             createdAt = ''2024-01-01T00:00:00.000Z'',
             updatedAt = Some ''2024-01-06T00:00:00.000Z''\<rparr> \<and>
   rows (snd (updateTask 1 \<lparr>p_title = None, p_completed = Some True\<rparr>
      ''2024-01-06T00:00:00.000Z'' three_db)) ! 0
     = milk_row\<lparr>row_completed := 1, updated_at := Some ''2024-01-06T00:00:00.000Z''\<rparr> \<and>
   rows (snd (updateTask 1 \<lparr>p_title = None, p_completed = Some True\<rparr>
      ''2024-01-06T00:00:00.000Z'' three_db)) ! 1 = report_row \<and>
   rows (snd (updateTask 1 \<lparr>p_title = None, p_completed = Some True\<rparr>
      ''2024-01-06T00:00:00.000Z'' three_db)) ! 2 = tie_row"
proof -
  let ?u = "updateTask 1 \<lparr>p_title = None, p_completed = Some True\<rparr> ''2024-01-06T00:00:00.000Z'' three_db"
  have a: "select_by_id 1 three_db = Some milk_row"
    by (simp add: select_by_id_def three_db_def milk_row_def)
  have b: "?u = (fst ?u, snd ?u)" by simp
  have ids: "row_id (rows three_db ! 0) = 1" "row_id (rows three_db ! 1) \<noteq> 1"
    "row_id (rows three_db ! 2) \<noteq> 1" "length (rows three_db) = 3"
    "rows three_db ! 0 = milk_row" "rows three_db ! 1 = report_row" "rows three_db ! 2 = tie_row"
    by (simp_all add: three_db_def milk_row_def report_row_def tie_row_def)
  note t = C5_updateTask_completed_frame [OF a b]
  from t have res: "fst ?u = Some (row_object
      (milk_row\<lparr>row_completed := 1, updated_at := Some ''2024-01-06T00:00:00.000Z''\<rparr>))"
    by (rule conjunct1)
  from t have all: "\<forall>k < length (rows three_db).
       (row_id (rows three_db ! k) \<noteq> 1 \<longrightarrow> rows (snd ?u) ! k = rows three_db ! k) \<and>
       (row_id (rows three_db ! k) = 1 \<longrightarrow>
          rows (snd ?u) ! k = (rows three_db ! k)\<lparr>row_completed := 1,
             updated_at := Some ''2024-01-06T00:00:00.000Z''\<rparr>)"
    by blast
  have r0: "rows (snd ?u) ! 0 =
      milk_row\<lparr>row_completed := 1, updated_at := Some ''2024-01-06T00:00:00.000Z''\<rparr>"
    using all [rule_format, of 0] ids by simp
  have r1: "rows (snd ?u) ! 1 = report_row"
    using all [rule_format, of 1] ids by simp
  have r2: "rows (snd ?u) ! 2 = tie_row"
    using all [rule_format, of 2] ids by simp
  have obj: "row_object (milk_row\<lparr>row_completed := 1,
        updated_at := Some ''2024-01-06T00:00:00.000Z''\<rparr>) =
      \<lparr>task_id = 1, title = ''Buy milk'', completed = True,
       createdAt = ''2024-01-01T00:00:00.000Z'',
       updatedAt = Some ''2024-01-06T00:00:00.000Z''\<rparr>"
    by (simp add: row_object_def milk_row_def)
  show ?thesis using a res r0 r1 r2 by (simp only: obj simp_thms)
qed

subsection \<open>Ids are never issued twice\<close>

lemma ids_issued_init: "ids_issued init_db"
  by (simp add: ids_issued_def init_db_def)

lemma ids_issued_apply_op:
  assumes "ids_issued d"
  shows "ids_issued (apply_op op d)"
proof (cases op)
  case (Create args now)
  have "row_id r \<le> next_rowid d" if "r \<in> set (rows d)" for r
    using next_rowid_gt_ids [OF that] by simp
  then show ?thesis
    by (auto simp add: Create ids_issued_def rows_createTask seq_createTask)
next
  case (Update i u now)
  from assms have "\<forall>x \<in> row_id ` set (rows d). x \<le> seq d"
    by (simp add: ids_issued_def)
  then have "\<forall>x \<in> row_id ` set (rows (snd (updateTask i u now d))). x \<le> seq d"
    by (simp only: idset_updateTask)
  then show ?thesis by (simp add: Update ids_issued_def seq_updateTask)
next
  case (Delete i)
  from assms show ?thesis
    by (simp add: Delete ids_issued_def rows_deleteTask seq_deleteTask)
next
  case ListAll
  from assms show ?thesis by (simp add: ListAll)
qed

lemma ids_issued_run: "ids_issued d \<Longrightarrow> ids_issued (run ops d)"
  unfolding run_def by (induction ops arbitrary: d) (simp_all add: ids_issued_apply_op)

lemma retired_apply_op:
  assumes "retired i d"
  shows "retired i (apply_op op d)"
proof (cases op)
  case (Create args now)
  from assms show ?thesis
    using next_rowid_gt_seq [of d]
    by (auto simp add: Create retired_def rows_createTask seq_createTask)
next
  case (Update j u now)
  from assms show ?thesis
    by (simp add: Update retired_def idset_updateTask seq_updateTask)
next
  case (Delete j)
  from assms show ?thesis
    by (auto simp add: Delete retired_def rows_deleteTask seq_deleteTask)
next
  case ListAll
  from assms show ?thesis by (simp add: ListAll)
qed

lemma retired_run: "retired i d \<Longrightarrow> retired i (run ops d)"
  unfolding run_def by (induction ops arbitrary: d) (simp_all add: retired_apply_op)

subsection \<open>The order of the list\<close>

lemma set_insert_row: "set (insert_row r xs) = insert r (set xs)"
  by (induction xs) auto

lemma set_order_by: "set (order_by_created_desc_id_desc rs) = set rs"
  unfolding order_by_created_desc_id_desc_def by (induction rs) (simp_all add: set_insert_row)

lemma ids_getAllTasks: "task_id ` set (getAllTasks d) = row_id ` set (rows d)"
  by (simp add: getAllTasks_def set_order_by image_image)

lemma mset_insert_row: "mset (insert_row r xs) = add_mset r (mset xs)"
  by (induction xs) simp_all

lemma mset_order_by: "mset (order_by_created_desc_id_desc rs) = mset rs"
  unfolding order_by_created_desc_id_desc_def
  by (induction rs) (simp_all add: mset_insert_row)

lemma precedes_total: "\<not> precedes a b \<Longrightarrow> precedes b a"
  by (auto simp: precedes_def)

lemma precedes_trans: "precedes a b \<Longrightarrow> precedes b c \<Longrightarrow> precedes a c"
  by (auto simp: precedes_def)

lemma sorted_insert_row:
  "sorted_wrt precedes xs \<Longrightarrow> sorted_wrt precedes (insert_row r xs)"
proof (induction xs)
  case Nil
  show ?case by simp
next
  case (Cons x xs)
  show ?case
  proof (cases "precedes r x")
    case True
    have "precedes r y" if "y \<in> set xs" for y
      using Cons.prems that True precedes_trans [of r x y] by auto
    with True Cons.prems show ?thesis by auto
  next
    case False
    then have "precedes x r" by (rule precedes_total)
    with False Cons show ?thesis by (auto simp: set_insert_row)
  qed
qed

lemma sorted_order_by: "sorted_wrt precedes (order_by_created_desc_id_desc rs)"
  unfolding order_by_created_desc_id_desc_def
  by (induction rs) (simp_all add: sorted_insert_row)

lemma getAllTasks_three_db:
  "getAllTasks three_db =
     [\<lparr>task_id = 3, title = ''Call home'', completed = False,
        createdAt = ''2024-01-03T00:00:00.000Z'', updatedAt = None\<rparr>,
      \<lparr>task_id = 2, title = ''Write report'', completed = True,
        createdAt = ''2024-01-03T00:00:00.000Z'', updatedAt = Some ''2024-01-04T00:00:00.000Z''\<rparr>,
      \<lparr>task_id = 1, title = ''Buy milk'', completed = False,
        createdAt = ''2024-01-01T00:00:00.000Z'', updatedAt = None\<rparr>]"
  by (simp add: getAllTasks_def order_by_created_desc_id_desc_def three_db_def row_object_def
      precedes_def milk_row_def report_row_def tie_row_def less_char_def)

text \<open>
  C4. \<open>getAllTasks\<close> resolves to the tasks of all the rows, one for each row of the
  table, in the order \<open>createdAt\<close> descending, then \<open>id\<close> descending. That is: there
  is an arrangement \<open>rs\<close> of the rows of the table, each row as often as the table
  has it, such that the list holds, place by place, the id, the title, the
  \<open>completed\<close> flag (true when the column is not 0), the \<open>created_at\<close> and the
  \<open>updated_at\<close> (\<open>null\<close> when the column is NULL or empty) of the rows of \<open>rs\<close>; and
  of any two tasks of the list, the one that stands first has the later \<open>createdAt\<close>,
  or the same \<open>createdAt\<close> and an id at least as large.
\<close>

theorem C4_getAllTasks_ordered:
  "\<exists>rs. mset rs = mset (rows d) \<and>
     map task_id (getAllTasks d) = map row_id rs \<and>
     map title (getAllTasks d) = map row_title rs \<and>
     map completed (getAllTasks d) = map (\<lambda>r. row_completed r \<noteq> 0) rs \<and>
     map createdAt (getAllTasks d) = map created_at rs \<and>
     map updatedAt (getAllTasks d) =
       map (\<lambda>r. case updated_at r of None \<Rightarrow> None
                 | Some u \<Rightarrow> (if u = [] then None else Some u)) rs \<and>
     sorted_wrt most_recent_first (getAllTasks d) \<and>
     mset (getAllTasks d) = mset (map row_object (rows d))"
proof -
  let ?rs = "order_by_created_desc_id_desc (rows d)"
  have perm: "mset ?rs = mset (rows d)"
    by (rule mset_order_by)
  have f1: "map task_id (getAllTasks d) = map row_id ?rs"
    by (simp add: getAllTasks_def row_object_def o_def)
  have f2: "map title (getAllTasks d) = map row_title ?rs"
    by (simp add: getAllTasks_def row_object_def o_def)
  have f3: "map completed (getAllTasks d) = map (\<lambda>r. row_completed r \<noteq> 0) ?rs"
    by (simp add: getAllTasks_def row_object_def o_def)
  have f4: "map createdAt (getAllTasks d) = map created_at ?rs"
    by (simp add: getAllTasks_def row_object_def o_def)
  have f5: "map updatedAt (getAllTasks d) =
       map (\<lambda>r. case updated_at r of None \<Rightarrow> None
                 | Some u \<Rightarrow> (if u = [] then None else Some u)) ?rs"
    by (simp add: getAllTasks_def row_object_def o_def)
  have "most_recent_first (row_object a) (row_object b) = precedes a b" for a b
    by (simp add: most_recent_first_def precedes_def row_object_def)
  then have ordered: "sorted_wrt most_recent_first (getAllTasks d)"
    by (simp add: getAllTasks_def sorted_wrt_map sorted_order_by)
  have objects: "mset (getAllTasks d) = mset (map row_object (rows d))"
    by (simp add: getAllTasks_def mset_order_by)
  show ?thesis
    by (rule exI [of _ ?rs]) (intro conjI perm f1 f2 f3 f4 f5 ordered objects)
qed

theorem C4_getAllTasks_ordered_witness:
  "getAllTasks three_db =
     [\<lparr>task_id = 3, title = ''Call home'', completed = False,
        createdAt = ''2024-01-03T00:00:00.000Z'', updatedAt = None\<rparr>,
      \<lparr>task_id = 2, title = ''Write report'', completed = True,
        createdAt = ''2024-01-03T00:00:00.000Z'', updatedAt = Some ''2024-01-04T00:00:00.000Z''\<rparr>,
      \<lparr>task_id = 1, title = ''Buy milk'', completed = False,
        createdAt = ''2024-01-01T00:00:00.000Z'', updatedAt = None\<rparr>] \<and>
   sorted_wrt most_recent_first (getAllTasks three_db) \<and>
   (\<exists>rs. mset rs = mset [milk_row, report_row, tie_row] \<and>
      map row_id rs = [3, 2, 1] \<and>
      map row_title rs = [''Call home'', ''Write report'', ''Buy milk''])"
proof -
  have rows3: "rows three_db = [milk_row, report_row, tie_row]"
    by (simp add: three_db_def)
  have ids: "map task_id (getAllTasks three_db) = [3, 2, 1]"
    by (simp add: getAllTasks_three_db)
  have titles: "map title (getAllTasks three_db) = [''Call home'', ''Write report'', ''Buy milk'']"
    by (simp add: getAllTasks_three_db)
  from C4_getAllTasks_ordered [of three_db]
  obtain rs where rs: "mset rs = mset (rows three_db) \<and>
     map task_id (getAllTasks three_db) = map row_id rs \<and>
     map title (getAllTasks three_db) = map row_title rs \<and>
     map completed (getAllTasks three_db) = map (\<lambda>r. row_completed r \<noteq> 0) rs \<and>
     map createdAt (getAllTasks three_db) = map created_at rs \<and>
     map updatedAt (getAllTasks three_db) =
       map (\<lambda>r. case updated_at r of None \<Rightarrow> None
                 | Some u \<Rightarrow> (if u = [] then None else Some u)) rs \<and>
     sorted_wrt most_recent_first (getAllTasks three_db) \<and>
     mset (getAllTasks three_db) = mset (map row_object (rows three_db))" ..
  have p: "mset rs = mset [milk_row, report_row, tie_row]"
    using rs rows3 by (simp only:)
  have i: "map row_id rs = [3, 2, 1]"
    using rs ids by (simp only:)
  have t: "map row_title rs = [''Call home'', ''Write report'', ''Buy milk'']"
    using rs titles by (simp only:)
  have s: "sorted_wrt most_recent_first (getAllTasks three_db)"
    using rs by (simp only:)
  have e: "\<exists>rs. mset rs = mset [milk_row, report_row, tie_row] \<and>
      map row_id rs = [3, 2, 1] \<and>
      map row_title rs = [''Call home'', ''Write report'', ''Buy milk'']"
    by (rule exI [of _ rs]) (intro conjI p i t)
  show ?thesis
    by (intro conjI getAllTasks_three_db s e)
qed

text \<open>
  C6. \<open>deleteTask(id)\<close> leaves the table without the rows of that id and resolves to
  whether there was one. In every state the store reaches from the empty table, once
  \<open>deleteTask(id)\<close> has resolved to true, whatever operations follow, \<open>getAllTasks\<close>
  never lists a task with that id (AUTOINCREMENT issues larger ids only), and
  \<open>deleteTask(id)\<close> resolves to false.
\<close>

theorem C6_deleteTask_never_again:
  assumes "d = run pre init_db" and "d' = snd (deleteTask i d)"
  shows "rows d' = filter (\<lambda>r. row_id r \<noteq> i) (rows d) \<and>
    fst (deleteTask i d) = (i \<in> row_id ` set (rows d)) \<and>
    (fst (deleteTask i d) \<longrightarrow>
       i \<notin> task_id ` set (getAllTasks (run post d')) \<and>
       \<not> fst (deleteTask i (run post d')))"
proof -
  have issued: "ids_issued d"
    unfolding assms(1) by (rule ids_issued_run [OF ids_issued_init])
  have gone: "retired i (run post d')" if "fst (deleteTask i d)"
  proof -
    from that have "i \<in> row_id ` set (rows d)" by (simp add: fst_deleteTask)
    with issued have "i \<le> seq d" by (auto simp: ids_issued_def)
    then have "retired i d'"
      by (auto simp add: retired_def assms(2) rows_deleteTask seq_deleteTask)
    then show ?thesis by (rule retired_run)
  qed
  show ?thesis
    using gone
    by (auto simp add: assms(2) rows_deleteTask fst_deleteTask ids_getAllTasks retired_def)
qed

lemma run_two_creates:
  "run two_creates init_db =
     \<lparr>rows = [milk_row, report_row\<lparr>updated_at := None\<rparr>], seq = 2\<rparr>"
  by (simp add: run_def two_creates_def init_db_def createTask_result next_rowid_def
      trim_samples milk_row_def report_row_def)

theorem C6_deleteTask_never_again_witness:
  "fst (deleteTask 1 (run two_creates init_db)) \<and>
   map row_id (rows (snd (deleteTask 1 (run two_creates init_db)))) = [2] \<and>
   1 \<notin> task_id ` set (getAllTasks (run later_ops (snd (deleteTask 1 (run two_creates init_db))))) \<and>
   \<not> fst (deleteTask 1 (run later_ops (snd (deleteTask 1 (run two_creates init_db)))))"
proof -
  have del: "fst (deleteTask 1 (run two_creates init_db))"
    by (simp add: run_two_creates deleteTask_def milk_row_def report_row_def)
  have ids: "map row_id (filter (\<lambda>r. row_id r \<noteq> 1) (rows (run two_creates init_db))) = [2]"
    by (simp add: run_two_creates milk_row_def report_row_def)
  show ?thesis
    using C6_deleteTask_never_again [OF refl refl, of 1 two_creates later_ops] del ids
    by simp
qed

section \<open>The REST handlers: claims\<close>

text \<open>
  C2. The create operation is \<open>POST /todos\<close>. With \<open>s\<close> the title as the handler
  reads it (\<open>String(title || "")\<close>): when the trim of \<open>s\<close> is empty the handler answers
  400 "Title is required" and the database is left as it was; when it is not, the
  handler answers 201 with the created task, whose title is the trim of \<open>s\<close>, and the
  table has gained exactly the row of that task.
\<close>

theorem C2_post_todos_title:
  assumes "s = String_or_empty (p_title body)"
  shows "(trim s = [] \<longrightarrow>
       post_todos body now d = (\<lparr>status = 400, payload = Message ''Title is required''\<rparr>, d)) \<and>
    (trim s \<noteq> [] \<longrightarrow>
       post_todos body now d =
         (\<lparr>status = 201,
           payload = Object (Some \<lparr>task_id = next_rowid d, title = trim s,
              completed = (p_completed body = Some True), createdAt = now, updatedAt = None\<rparr>)\<rparr>,
          \<lparr>rows = rows d @
             [\<lparr>row_id = next_rowid d, row_title = trim s,
               row_completed = (if p_completed body = Some True then 1 else 0),
               created_at = now, updated_at = None\<rparr>],
           seq = next_rowid d\<rparr>))"
  unfolding assms
  by (auto simp add: post_todos_def Let_def createTask_result trim_trim split: option.splits)

theorem C2_post_todos_title_witness:
  "post_todos \<lparr>p_title = Some [], p_completed = None\<rparr> ''2024-01-01T00:00:00.000Z'' init_db
     = (\<lparr>status = 400, payload = Message ''Title is required''\<rparr>, init_db) \<and>
   post_todos \<lparr>p_title = Some ''   '', p_completed = None\<rparr> ''2024-01-01T00:00:00.000Z'' init_db
     = (\<lparr>status = 400, payload = Message ''Title is required''\<rparr>, init_db) \<and>
   post_todos \<lparr>p_title = Some ''  Buy milk '', p_completed = None\<rparr> ''2024-01-01T00:00:00.000Z''
      init_db
     = (\<lparr>status = 201, payload = Object (Some milk_task)\<rparr>, milk_db)"
  using
    C2_post_todos_title [OF refl, of "\<lparr>p_title = Some [], p_completed = None\<rparr>"
      "''2024-01-01T00:00:00.000Z''" init_db]
    C2_post_todos_title [OF refl, of "\<lparr>p_title = Some ''   '', p_completed = None\<rparr>"
      "''2024-01-01T00:00:00.000Z''" init_db]
    C2_post_todos_title [OF refl, of "\<lparr>p_title = Some ''  Buy milk '', p_completed = None\<rparr>"
      "''2024-01-01T00:00:00.000Z''" init_db]
  by (simp add: trim_blank trim_samples init_db_def next_rowid_def milk_db_def milk_row_def
      milk_task_def)

text \<open>
  C3 at a failing input. \<open>POST /todos\<close> with the title "Buy milk" on the empty table
  gives the table with that one task; \<open>PUT /todos/1\<close> with the title "   ", whose trim
  is empty, then answers 200 and the stored title of task 1 is the empty string: the
  handler passes the title on unchecked and \<open>updateTask\<close> writes its trim.
\<close>

theorem C3_put_blank_title_stored:
  "snd (post_todos \<lparr>p_title = Some ''Buy milk'', p_completed = None\<rparr>
      ''2024-01-01T00:00:00.000Z'' init_db) = milk_db \<and>
   trim ''   '' = [] \<and>
   put_todos (Some 1) \<lparr>p_title = Some ''   '', p_completed = None\<rparr>
      ''2024-01-02T00:00:00.000Z'' milk_db =
     (\<lparr>status = 200,
       payload = Object (Some \<lparr>task_id = 1, title = [], completed = False,
          createdAt = ''2024-01-01T00:00:00.000Z'',
          updatedAt = Some ''2024-01-02T00:00:00.000Z''\<rparr>)\<rparr>,
      \<lparr>rows = [milk_row\<lparr>row_title := [], updated_at := Some ''2024-01-02T00:00:00.000Z''\<rparr>],
       seq = 1\<rparr>)"
  by (simp add: post_todos_def put_todos_def Let_def createTask_result updateTask_def
      update_fields_def sql_update_def select_by_id_def mapRow_def row_object_def next_rowid_def
      trim_blank trim_samples init_db_def milk_db_def milk_row_def)

section \<open>The client hook: claims\<close>

lemma map_unmatched:
  "find (\<lambda>t. task_id t = i) ts = None \<Longrightarrow> map (\<lambda>t. if task_id t = i then f t else t) ts = ts"
  by (induction ts) (auto split: if_splits)

lemma updateTodo_failed:
  "updateTodo i u (Inl m) s = (s\<lparr>error := or_else m ''Failed to update todo''\<rparr>,
     Some (PUT_todos i (find (\<lambda>t. task_id t = i)
        (map (\<lambda>t. if task_id t = i then spread t u else t) (todos s)))))"
  by (simp add: updateTodo_def updateTodo_begin_def updateTodo_resume_def await_def Let_def)

lemma deleteTodo_failed:
  "deleteTodo i (Inl m) s = (s\<lparr>error := or_else m ''Failed to delete todo''\<rparr>, Some (DELETE_todos i))"
  by (simp add: deleteTodo_def deleteTodo_begin_def deleteTodo_resume_def await_def)

lemma stale_hook_find:
  "find (\<lambda>t. task_id t = 1) (todos stale_hook) = Some milk_task"
  "find (\<lambda>t. task_id t = 7) (todos stale_hook) = None"
  by (simp_all add: stale_hook_def milk_task_def report_task_def)

text \<open>
  C7, as the code has it. When no local task has the id, \<open>updateTodo\<close> still issues
  \<open>PUT /todos/id\<close>, with no body (\<open>find\<close> gives \<open>undefined\<close>); \<open>todos\<close> and \<open>loading\<close>
  end as they were, whatever the reply, and \<open>error\<close> ends empty when the call
  succeeds and as the failure's message when it fails. \<open>toggleComplete\<close> on such an
  id returns at once: no request, and the state untouched.
\<close>

theorem C7_update_unknown_id:
  assumes "find (\<lambda>t. task_id t = i) (todos s) = None"
  shows "snd (updateTodo i u reply s) = Some (PUT_todos i None) \<and>
    todos (fst (updateTodo i u reply s)) = todos s \<and>
    loading (fst (updateTodo i u reply s)) = loading s \<and>
    error (fst (updateTodo i u reply s)) =
      (case reply of Inl m \<Rightarrow> or_else m ''Failed to update todo'' | Inr _ \<Rightarrow> []) \<and>
    toggleComplete i reply s = (s, None)"
  using assms
  by (simp add: updateTodo_def updateTodo_begin_def updateTodo_resume_def await_def Let_def
      map_unmatched toggleComplete_def split: sum.splits)

text \<open>
  C7 as the claim words it fails: no local task has id 7, yet \<open>updateTodo(7, ...)\<close>
  issues the PUT request, and when that request fails the local \<open>error\<close> changes.
\<close>

theorem C7_request_without_local_task:
  "find (\<lambda>t. task_id t = 7) (todos stale_hook) = None \<and>
   snd (updateTodo 7 \<lparr>p_title = None, p_completed = Some True\<rparr> (Inl ''Failed to fetch'') stale_hook)
     = Some (PUT_todos 7 None) \<and>
   error stale_hook = ''Todo not found'' \<and>
   error (fst (updateTodo 7 \<lparr>p_title = None, p_completed = Some True\<rparr> (Inl ''Failed to fetch'')
      stale_hook)) = ''Failed to fetch''"
  by (simp add: updateTodo_failed stale_hook_find or_else_def stale_hook_def milk_task_def
      report_task_def)

theorem C7_update_unknown_id_witness:
  "snd (updateTodo 7 \<lparr>p_title = None, p_completed = Some True\<rparr> (Inr report_task) stale_hook)
     = Some (PUT_todos 7 None) \<and>
   todos (fst (updateTodo 7 \<lparr>p_title = None, p_completed = Some True\<rparr> (Inr report_task)
      stale_hook)) = [report_task, milk_task] \<and>
   error (fst (updateTodo 7 \<lparr>p_title = None, p_completed = Some True\<rparr> (Inr report_task)
      stale_hook)) = [] \<and>
   toggleComplete 7 (Inr report_task) stale_hook = (stale_hook, None)"
  using C7_update_unknown_id [OF stale_hook_find(2),
      of "\<lparr>p_title = None, p_completed = Some True\<rparr>" "Inr report_task"]
  by (simp add: stale_hook_def)

text \<open>
  How \<open>error\<close> is handled. \<open>fetchTodos\<close>, \<open>updateTodo\<close> and \<open>deleteTodo\<close> begin
  with \<open>setError("")\<close>, and so does \<open>toggleComplete\<close> for an id found locally; each
  ends with \<open>error\<close> empty when its request succeeds and with the failure's message,
  never empty, when it fails. \<open>toggleComplete\<close> for an id not found locally and
  \<open>addTodo\<close> for a title whose trim is empty return at once.
\<close>

lemma error_policy_of_the_other_operations:
  "error (fst (fetchTodos_begin s)) = [] \<and>
   error (fst (updateTodo_begin i u s)) = [] \<and>
   error (fst (deleteTodo_begin i s)) = [] \<and>
   error (fst (fetchTodos (Inr data) s)) = [] \<and>
   error (fst (updateTodo i u (Inr updated) s)) = [] \<and>
   error (fst (deleteTodo i (Inr ()) s)) = [] \<and>
   error (fst (fetchTodos (Inl m) s)) = or_else m ''Failed to load todos'' \<and>
   error (fst (updateTodo i u (Inl m) s)) = or_else m ''Failed to update todo'' \<and>
   error (fst (deleteTodo i (Inl m) s)) = or_else m ''Failed to delete todo'' \<and>
   or_else m ''Failed to load todos'' \<noteq> [] \<and>
   or_else m ''Failed to update todo'' \<noteq> [] \<and>
   or_else m ''Failed to delete todo'' \<noteq> [] \<and>
   (find (\<lambda>t. task_id t = i) (todos s) \<noteq> None \<longrightarrow>
      error (fst (toggleComplete_begin i s)) = [] \<and>
      error (fst (toggleComplete i (Inr updated) s)) = [] \<and>
      error (fst (toggleComplete i (Inl m) s)) = or_else m ''Failed to update todo'') \<and>
   (find (\<lambda>t. task_id t = i) (todos s) = None \<longrightarrow>
      toggleComplete_begin i s = (s, None) \<and> toggleComplete i reply s = (s, None)) \<and>
   (trim ttl = [] \<longrightarrow> addTodo_begin ttl s = (s, None) \<and> addTodo ttl areply s = (s, None))"
  by (auto simp add: fetchTodos_def fetchTodos_begin_def fetchTodos_resume_def
      updateTodo_def updateTodo_begin_def updateTodo_resume_def
      deleteTodo_def deleteTodo_begin_def deleteTodo_resume_def
      toggleComplete_def toggleComplete_begin_def addTodo_def addTodo_begin_def
      await_def Let_def or_else_nonempty)

text \<open>
  \<open>addTodo\<close> for a title that is not blank issues its POST with \<open>error\<close> as it found
  it, leaves \<open>error\<close> as it found it when the request succeeds, and sets it to the
  failure's message, never empty, when the request fails.
\<close>

lemma addTodo_error:
  assumes "trim ttl \<noteq> []"
  shows "addTodo_begin ttl s =
      (s, Some (POST_todos \<lparr>p_title = Some (trim ttl), p_completed = Some False\<rparr>)) \<and>
    fst (addTodo ttl (Inr created) s) = s\<lparr>todos := created # todos s\<rparr> \<and>
    error (fst (addTodo ttl (Inr created) s)) = error s \<and>
    fst (addTodo ttl (Inl m) s) = s\<lparr>error := or_else m ''Failed to add todo''\<rparr> \<and>
    or_else m ''Failed to add todo'' \<noteq> []"
  using assms
  by (simp add: addTodo_def addTodo_begin_def addTodo_resume_def await_def Let_def
      or_else_nonempty)

text \<open>
  C8 at a failing input. The hook holds the error "Todo not found" of an earlier
  failure. \<open>addTodo("Call home")\<close> issues its POST with that error still in place,
  and after the POST has succeeded, with the new task put at the front of the list,
  the error is still "Todo not found": \<open>addTodo\<close> has no \<open>setError("")\<close>. On the same
  state \<open>fetchTodos\<close>, \<open>updateTodo\<close> and \<open>deleteTodo\<close> have emptied \<open>error\<close> by the
  time they issue their request.
\<close>

theorem C8_addTodo_keeps_stale_error:
  "error stale_hook = ''Todo not found'' \<and>
   addTodo_begin ''Call home'' stale_hook
     = (stale_hook, Some (POST_todos \<lparr>p_title = Some ''Call home'', p_completed = Some False\<rparr>)) \<and>
   addTodo ''Call home'' (Inr milk_task) stale_hook
     = (\<lparr>todos = [milk_task, report_task, milk_task], loading = False,
         error = ''Todo not found''\<rparr>,
        Some (POST_todos \<lparr>p_title = Some ''Call home'', p_completed = Some False\<rparr>)) \<and>
   error (fst (fetchTodos_begin stale_hook)) = [] \<and>
   error (fst (updateTodo_begin 1 \<lparr>p_title = None, p_completed = Some True\<rparr> stale_hook)) = [] \<and>
   error (fst (deleteTodo_begin 1 stale_hook)) = []"
  by (simp add: addTodo_def addTodo_begin_def addTodo_resume_def await_def Let_def
      fetchTodos_begin_def updateTodo_begin_def deleteTodo_begin_def trim_samples stale_hook_def)

text \<open>
  C9. When the request of \<open>updateTodo\<close> fails, the state ends as it was before the
  call but for \<open>error\<close>, which holds the failure's message, never empty: \<open>todos\<close> is
  the list captured before the optimistic change. The same holds for
  \<open>toggleComplete\<close>, which issues a request when the id is found locally, and for
  \<open>deleteTodo\<close>.
\<close>

theorem C9_rollback_on_failure:
  "fst (updateTodo i u (Inl m) s) = s\<lparr>error := or_else m ''Failed to update todo''\<rparr> \<and>
   or_else m ''Failed to update todo'' \<noteq> [] \<and>
   (find (\<lambda>t. task_id t = i) (todos s) \<noteq> None \<longrightarrow>
      fst (toggleComplete i (Inl m) s) = s\<lparr>error := or_else m ''Failed to update todo''\<rparr> \<and>
      snd (toggleComplete i (Inl m) s) \<noteq> None) \<and>
   fst (deleteTodo i (Inl m) s) = s\<lparr>error := or_else m ''Failed to delete todo''\<rparr> \<and>
   or_else m ''Failed to delete todo'' \<noteq> [] \<and>
   todos (fst (updateTodo i u (Inl m) s)) = todos s \<and>
   todos (fst (deleteTodo i (Inl m) s)) = todos s"
  by (auto simp add: updateTodo_failed deleteTodo_failed toggleComplete_def or_else_nonempty)

lemma optimistic_states:
  "todos (fst (toggleComplete_begin 1 stale_hook)) = [report_task, milk_task\<lparr>completed := True\<rparr>]"
  "todos (fst (deleteTodo_begin 1 stale_hook)) = [report_task]"
  by (simp_all add: toggleComplete_begin_def updateTodo_begin_def deleteTodo_begin_def Let_def
      spread_def stale_hook_def milk_task_def report_task_def)

theorem C9_rollback_on_failure_witness:
  "todos (fst (toggleComplete_begin 1 stale_hook)) = [report_task, milk_task\<lparr>completed := True\<rparr>] \<and>
   fst (toggleComplete 1 (Inl ''Failed to fetch'') stale_hook)
     = \<lparr>todos = [report_task, milk_task], loading = False, error = ''Failed to fetch''\<rparr> \<and>
   todos (fst (deleteTodo_begin 1 stale_hook)) = [report_task] \<and>
   fst (deleteTodo 1 (Inl []) stale_hook)
     = \<lparr>todos = [report_task, milk_task], loading = False, error = ''Failed to delete todo''\<rparr> \<and>
   fst (updateTodo 2 \<lparr>p_title = Some ''Write the report'', p_completed = None\<rparr>
      (Inl ''Todo not found'') stale_hook)
     = \<lparr>todos = [report_task, milk_task], loading = False, error = ''Todo not found''\<rparr>"
  using
    C9_rollback_on_failure [of 1 "\<lparr>p_title = None, p_completed = None\<rparr>" "''Failed to fetch''"
      stale_hook]
    C9_rollback_on_failure [of 1 "\<lparr>p_title = None, p_completed = None\<rparr>" "[]" stale_hook]
    C9_rollback_on_failure [of 2 "\<lparr>p_title = Some ''Write the report'', p_completed = None\<rparr>"
      "''Todo not found''" stale_hook]
  by (simp add: optimistic_states stale_hook_find or_else_def)
    (simp add: stale_hook_def)

text \<open>
  C10. For every state of the hook, \<open>stats.total\<close> is \<open>stats.completed\<close> plus
  \<open>stats.active\<close>, where \<open>total\<close> is the number of tasks, \<open>completed\<close> the number of
  those with \<open>completed\<close> true, and \<open>active\<close> the number of the others.
\<close>

theorem C10_stats_sum:
  "total_count (stats s) = completed_count (stats s) + active_count (stats s) \<and>
   total_count (stats s) = length (todos s) \<and>
   completed_count (stats s) = length (filter completed (todos s)) \<and>
   active_count (stats s) = length (filter (\<lambda>t. \<not> completed t) (todos s))"
proof -
  have le: "length (filter completed (todos s)) \<le> length (todos s)"
    by (rule length_filter_le)
  have "length (filter completed (todos s)) + length (filter (\<lambda>t. \<not> completed t) (todos s))
      = length (todos s)"
    by (rule sum_length_filter_compl)
  with le show ?thesis by (simp add: stats_def Let_def)
qed

theorem C10_stats_sum_witness:
  "stats stale_hook = \<lparr>total_count = 2, completed_count = 1, active_count = 1\<rparr> \<and>
   total_count (stats stale_hook) =
     completed_count (stats stale_hook) + active_count (stats stale_hook)"
  using C10_stats_sum [of stale_hook]
  by (simp add: stats_def Let_def stale_hook_def milk_task_def report_task_def)

end
